theory Spec2Isabelle
  imports Main "HOL-Library.AList"
begin

section \<open>Values, annotations and parameters\<close>

text \<open>
  Python values that occur as defaults, as metadata of an annotated alias and as
  descriptions. \<open>PStrOf v\<close> stands for the string \<open>str(v)\<close> of a value that is not a
  string already; \<open>PObj\<close> is any other object, named by its representation.
\<close>

datatype pyval =
    PNone
  | PEllipsis
  | PUndefined
  | PStr string
  | PInt int
  | PTuple "pyval list"
  | PStrOf pyval
  | PObj string

fun py_str :: "pyval \<Rightarrow> pyval" where
  "py_str (PStr s) = PStr s"
| "py_str v = PStrOf v"

text \<open>
  What a parameter's annotation can be. \<open>Empty\<close> is \<open>inspect.Parameter.empty\<close>, which
  is itself a plain class; \<open>PlainClass\<close> is a class whose metaclass is \<open>type\<close> itself
  (\<open>int\<close>, \<open>str\<close>, a user class); \<open>EnumClass\<close> is an enumeration class (metaclass
  \<open>EnumMeta\<close>) with its member names in definition order; \<open>Annotated base ms\<close> is
  \<open>Annotated[base, m1, ..., mn]\<close> with its metadata values (\<open>get_args\<close> returns the
  base followed by them); \<open>FieldInfo a d descr\<close> is a field object with its annotation,
  default and description; \<open>OtherType\<close> is any other annotation object (a generic
  alias, a class with another metaclass, an instance).
\<close>

datatype annotation =
    Empty
  | PlainClass string
  | EnumClass string "string list"
  | LiteralOf "string list"
  | Annotated annotation "pyval list"
  | FieldInfo annotation pyval pyval
  | OtherType string

datatype kind =
    POSITIONAL_ONLY
  | POSITIONAL_OR_KEYWORD
  | VAR_POSITIONAL
  | KEYWORD_ONLY
  | VAR_KEYWORD

text \<open>\<open>inspect.Parameter\<close>; the default \<open>None\<close> is \<open>inspect.Parameter.empty\<close>.\<close>

record parameter =
  kind :: kind
  default :: "pyval option"
  annotation :: annotation

text \<open>\<open>type(a) is type\<close> and \<open>isinstance(a, EnumMeta)\<close>.\<close>

fun type_is_type :: "annotation \<Rightarrow> bool" where
  "type_is_type Empty = True"
| "type_is_type (PlainClass c) = True"
| "type_is_type a = False"

fun is_enum :: "annotation \<Rightarrow> bool" where
  "is_enum (EnumClass c ms) = True"
| "is_enum a = False"

section \<open>Errors and schema values\<close>

datatype error =
    ValueError_included_and_excluded
  | AttributeError_not_found
  | TypeError_None_not_iterable
  | ValueError_unpack
  | IndexError_tuple
  | TypeError_not_awaitable
  | TypeError_multiple_values_for_self
  | Raised string

text \<open>
  One entry of the \<open>properties\<close> dictionary handed to \<open>create_model\<close>: the emitted
  type, and the default and description of the \<open>Field\<close>.
\<close>

record field =
  f_type :: annotation
  f_default :: pyval
  f_description :: pyval

text \<open>
  The values of the schema dictionary. \<open>SSet\<close> is a Python \<open>set\<close> object, \<open>SList\<close> a
  list; \<open>SField f\<close> is the JSON schema the schema library renders for the field \<open>f\<close>,
  determined by \<open>f\<close> and left uninterpreted.
\<close>

datatype schema_val =
    SNone
  | SStr string
  | SList "schema_val list"
  | SDict "(string \<times> schema_val) list"
  | SSet "string set"
  | SField field

text \<open>What \<open>json.dumps\<close> accepts: no \<open>set\<close> anywhere in the value.\<close>

fun json_serializable :: "schema_val \<Rightarrow> bool" where
  "json_serializable SNone = True"
| "json_serializable (SStr s) = True"
| "json_serializable (SList xs) = list_all json_serializable xs"
| "json_serializable (SDict kvs) = list_all json_serializable (map snd kvs)"
| "json_serializable (SSet s) = False"
| "json_serializable (SField f) = True"

section \<open>The signature analyzer\<close>

text \<open>Python truthiness of an optional set, and \<open>s or set()\<close>.\<close>

fun truthy :: "string set option \<Rightarrow> bool" where
  "truthy None = False"
| "truthy (Some s) = (s \<noteq> {})"

fun or_empty :: "string set option \<Rightarrow> string set" where
  "or_empty None = {}"
| "or_empty (Some s) = s"

text \<open>
  Lines 33 to 35: the membership tests run left to right and stop at the first that
  decides; a test against \<open>None\<close> raises \<open>TypeError\<close>.
\<close>

definition add_required ::
  "string \<Rightarrow> bool \<Rightarrow> string set option \<Rightarrow> string set option \<Rightarrow> error + string set option" where
  "add_required p_name has_default required_params exclude =
     (if has_default then Inr required_params
      else case required_params of
             None \<Rightarrow> Inl TypeError_None_not_iterable
           | Some r \<Rightarrow>
               if p_name \<in> r then Inr required_params
               else case exclude of
                      None \<Rightarrow> Inl TypeError_None_not_iterable
                    | Some ex \<Rightarrow>
                        if p_name \<in> ex then Inr required_params
                        else Inr (Some (insert p_name r)))"

text \<open>Line 52: an enumeration becomes the literal of its member names.\<close>

fun enum_to_literal :: "annotation \<Rightarrow> annotation" where
  "enum_to_literal (EnumClass c ms) = LiteralOf ms"
| "enum_to_literal a = a"

text \<open>
  Lines 37 to 56: the entry stored under the parameter's name. Line 46 unpacks
  \<open>get_args(annotation)\<close> into two names, which raises \<open>ValueError\<close> unless the alias
  has exactly one metadata value; line 49 reads element 0 of a tuple, which raises
  \<open>IndexError\<close> on the empty tuple.
\<close>

definition field_default :: "parameter \<Rightarrow> pyval" where
  "field_default p = (case default p of None \<Rightarrow> PEllipsis | Some d \<Rightarrow> d)"

definition make_field :: "parameter \<Rightarrow> error + field" where
  "make_field p =
     (case annotation p of
        FieldInfo a d descr \<Rightarrow> Inr \<lparr>f_type = a, f_default = d, f_description = descr\<rparr>
      | Annotated base ms \<Rightarrow>
          (case ms of
             [m] \<Rightarrow>
               (case m of
                  PTuple [] \<Rightarrow> Inl IndexError_tuple
                | PTuple (v # vs) \<Rightarrow>
                    Inr \<lparr>f_type = enum_to_literal base, f_default = field_default p,
                         f_description = py_str v\<rparr>
                | _ \<Rightarrow>
                    Inr \<lparr>f_type = enum_to_literal base, f_default = field_default p,
                         f_description = m\<rparr>)
           | _ \<Rightarrow> Inl ValueError_unpack)
      | a \<Rightarrow>
          Inr \<lparr>f_type = enum_to_literal a, f_default = field_default p,
               f_description = PNone\<rparr>)"

text \<open>
  The loop of lines 25 to 56 over \<open>enumerate(parameters.items())\<close>, with the index,
  the required set and the properties dictionary as loop state.
\<close>

fun analyze ::
  "nat \<Rightarrow> (string \<times> parameter) list \<Rightarrow> string set option \<Rightarrow> string set option \<Rightarrow>
   (string \<times> field) list \<Rightarrow> error + (string set option \<times> (string \<times> field) list)" where
  "analyze idx [] exclude required_params properties = Inr (required_params, properties)"
| "analyze idx ((p_name, p) # rest) exclude required_params properties =
     (if idx = 0 \<and> p_name \<in> {''self'', ''cls''} \<and> type_is_type (annotation p)
      then analyze (Suc idx) rest exclude required_params properties
      else if kind p \<in> {VAR_POSITIONAL, VAR_KEYWORD}
      then analyze (Suc idx) rest exclude required_params properties
      else case add_required p_name (default p \<noteq> None) required_params exclude of
             Inl e \<Rightarrow> Inl e
           | Inr required_params' \<Rightarrow>
               (case make_field p of
                  Inl e \<Rightarrow> Inl e
                | Inr fld \<Rightarrow>
                    analyze (Suc idx) rest exclude required_params'
                      (AList.update p_name fld properties)))"

text \<open>
  The schema library's \<open>create_model(...).model_json_schema(mode="serialization")\<close>
  for the model named \<open>_\<close>: an object schema with one property per field, the library's
  own \<open>required\<close> list (present when some field has no default), the title and the type.
  The library is outside the source: the model takes the call to succeed and keeps each
  property's rendering as \<open>SField\<close> of the field given to it.
\<close>

definition model_json_schema :: "(string \<times> field) list \<Rightarrow> (string \<times> schema_val) list" where
  "model_json_schema properties =
     [(''properties'', SDict (map (\<lambda>(n, f). (n, SField f)) properties))]
     @ (let req = map fst (filter (\<lambda>(n, f). f_default f \<in> {PEllipsis, PUndefined}) properties)
        in if req = [] then [] else [(''required'', SList (map SStr req))])
     @ [(''title'', SStr ''_''), (''type'', SStr ''object'')]"

fun required_value :: "string set option \<Rightarrow> schema_val" where
  "required_value None = SNone"
| "required_value (Some r) = SSet r"

definition convert_params_to_schema ::
  "(string \<times> parameter) list \<Rightarrow> string set option \<Rightarrow> string set option \<Rightarrow>
   error + (string \<times> schema_val) list" where
  "convert_params_to_schema parameters include exclude =
     (if truthy include \<and> truthy exclude \<and> or_empty include \<inter> or_empty exclude \<noteq> {}
      then Inl ValueError_included_and_excluded
      else if \<not> or_empty include \<subseteq> set (map fst parameters)
      then Inl AttributeError_not_found
      else case analyze 0 parameters exclude include [] of
             Inl e \<Rightarrow> Inl e
           | Inr (required_params, properties) \<Rightarrow>
               Inr (AList.delete ''title''
                      (AList.update ''required'' (required_value required_params)
                         (model_json_schema properties))))"

section \<open>The wrapper\<close>

text \<open>
  What a call returns: a value, or a coroutine object that delivers its outcome when
  awaited.
\<close>

datatype pyobj =
    Value pyval
  | Coroutine "error + pyobj"

type_synonym args = "pyval list \<times> (string \<times> pyval) list"

text \<open>
  A function object: its name, docstring, signature, whether it was defined with
  \<open>async def\<close>, and what calling it with positional and keyword arguments does.
\<close>

record pyfunc =
  fn_name :: string
  fn_doc :: "string option"
  fn_params :: "(string \<times> parameter) list"
  fn_is_coroutine :: bool
  fn_call :: "args \<Rightarrow> error + pyobj"

definition convert_to_gpt_func ::
  "pyfunc \<Rightarrow> string option \<Rightarrow> string set option \<Rightarrow> string set option \<Rightarrow> error + schema_val" where
  "convert_to_gpt_func func description include exclude =
     (let func_name = fn_name func;
          doc = (case description of
                   Some d \<Rightarrow> if d \<noteq> [] then d else
                     (case fn_doc func of Some s \<Rightarrow> if s \<noteq> [] then s else func_name
                                        | None \<Rightarrow> func_name)
                 | None \<Rightarrow>
                     (case fn_doc func of Some s \<Rightarrow> if s \<noteq> [] then s else func_name
                                        | None \<Rightarrow> func_name))
      in case convert_params_to_schema (fn_params func) include exclude of
           Inl e \<Rightarrow> Inl e
         | Inr parameters \<Rightarrow>
             Inr (SDict [(''name'', SStr func_name),
                         (''description'', SStr doc),
                         (''parameters'', SDict parameters)]))"

datatype wrapper =
    Wrapper pyfunc schema_val
  | AsyncWrapper pyfunc schema_val

fun func :: "wrapper \<Rightarrow> pyfunc" where
  "func (Wrapper f g) = f"
| "func (AsyncWrapper f g) = f"

fun gpt_func :: "wrapper \<Rightarrow> schema_val" where
  "gpt_func (Wrapper f g) = g"
| "gpt_func (AsyncWrapper f g) = g"





definition gpt_callable_func ::
  "string option \<Rightarrow> string set option \<Rightarrow> string set option \<Rightarrow> pyfunc \<Rightarrow> error + wrapper" where
  "gpt_callable_func description include exclude f =
     (case convert_to_gpt_func f description include exclude of
        Inl e \<Rightarrow> Inl e
      | Inr g \<Rightarrow> Inr (if fn_is_coroutine f then AsyncWrapper f g else Wrapper f g))"

section \<open>Reading a wrapper's schema\<close>

text \<open>\<open>d[k]\<close> on a value that may be missing or not a dictionary, and the keys of one.\<close>

fun get :: "schema_val option \<Rightarrow> string \<Rightarrow> schema_val option" where
  "get (Some (SDict kvs)) k = map_of kvs k"
| "get v k = None"

fun keys :: "schema_val option \<Rightarrow> string set" where
  "keys (Some (SDict kvs)) = set (map fst kvs)"
| "keys v = {}"

fun string_members :: "schema_val list \<Rightarrow> string list" where
  "string_members [] = []"
| "string_members (SStr s # xs) = s # string_members xs"
| "string_members (x # xs) = string_members xs"

fun members :: "schema_val option \<Rightarrow> string set" where
  "members (Some (SSet r)) = r"
| "members (Some (SList xs)) = set (string_members xs)"
| "members v = {}"

definition schema_parameters :: "wrapper \<Rightarrow> schema_val option" where
  "schema_parameters w = get (Some (gpt_func w)) ''parameters''"

definition schema_properties :: "wrapper \<Rightarrow> schema_val option" where
  "schema_properties w = get (schema_parameters w) ''properties''"

definition schema_required :: "wrapper \<Rightarrow> schema_val option" where
  "schema_required w = get (schema_parameters w) ''required''"

definition property_names :: "wrapper \<Rightarrow> string set" where
  "property_names w = keys (schema_properties w)"

definition required_names :: "wrapper \<Rightarrow> string set" where
  "required_names w = members (schema_required w)"

fun emitted_type :: "wrapper \<Rightarrow> string \<Rightarrow> annotation option" where
  "emitted_type w n =
     (case get (schema_properties w) n of
        Some (SField f) \<Rightarrow> Some (f_type f)
      | _ \<Rightarrow> None)"

text \<open>
  The two \<open>continue\<close> tests of the loop as one predicate, and the parameters the loop
  does not skip.
\<close>

definition skipped :: "nat \<Rightarrow> string \<Rightarrow> parameter \<Rightarrow> bool" where
  "skipped idx p_name p =
     ((idx = 0 \<and> p_name \<in> {''self'', ''cls''} \<and> type_is_type (annotation p))
      \<or> kind p \<in> {VAR_POSITIONAL, VAR_KEYWORD})"

fun analyzed :: "nat \<Rightarrow> (string \<times> parameter) list \<Rightarrow> (string \<times> parameter) list" where
  "analyzed idx [] = []"
| "analyzed idx ((p_name, p) # rest) =
     (if skipped idx p_name p then analyzed (Suc idx) rest
      else (p_name, p) # analyzed (Suc idx) rest)"

text \<open>Example functions.\<close>

definition int_result :: "args \<Rightarrow> error + pyobj" where
  "int_result a = Inr (Value (PInt (int (length (fst a)))))"

text \<open>\<open>def f(a, b=1)\<close>.\<close>

definition f_a_b :: pyfunc where
  "f_a_b = \<lparr>fn_name = ''f'', fn_doc = None,
     fn_params = [(''a'', \<lparr>kind = POSITIONAL_OR_KEYWORD, default = None, annotation = Empty\<rparr>),
                  (''b'', \<lparr>kind = POSITIONAL_OR_KEYWORD, default = Some (PInt 1), annotation = Empty\<rparr>)],
     fn_is_coroutine = False, fn_call = int_result\<rparr>"

text \<open>\<open>def g(a: int, b: int = 1)\<close>.\<close>

definition g_a_b :: pyfunc where
  "g_a_b = \<lparr>fn_name = ''g'', fn_doc = None,
     fn_params = [(''a'', \<lparr>kind = POSITIONAL_OR_KEYWORD, default = None,
                          annotation = PlainClass ''int''\<rparr>),
                  (''b'', \<lparr>kind = POSITIONAL_OR_KEYWORD, default = Some (PInt 1),
                          annotation = PlainClass ''int''\<rparr>)],
     fn_is_coroutine = False, fn_call = int_result\<rparr>"

text \<open>\<open>def h(x: int = 1, **kwargs)\<close>.\<close>

definition h_kwargs :: pyfunc where
  "h_kwargs = \<lparr>fn_name = ''h'', fn_doc = None,
     fn_params = [(''x'', \<lparr>kind = POSITIONAL_OR_KEYWORD, default = Some (PInt 1),
                          annotation = PlainClass ''int''\<rparr>),
                  (''kwargs'', \<lparr>kind = VAR_KEYWORD, default = None, annotation = Empty\<rparr>)],
     fn_is_coroutine = False, fn_call = int_result\<rparr>"

text \<open>\<open>async def k(level: Level)\<close> with \<open>class Level(Enum)\<close> of members \<open>LOW\<close>, \<open>HIGH\<close>.\<close>

definition k_level :: pyfunc where
  "k_level = \<lparr>fn_name = ''k'', fn_doc = Some ''Set the level.'',
     fn_params = [(''level'', \<lparr>kind = POSITIONAL_OR_KEYWORD, default = None,
                              annotation = EnumClass ''Level'' [''LOW'', ''HIGH'']\<rparr>)],
     fn_is_coroutine = True,
     fn_call = (\<lambda>a. Inr (Coroutine (int_result a)))\<rparr>"

text \<open>\<open>def m(self, cls: int = 0)\<close> and \<open>def n(self: Optional[int] = None)\<close>.\<close>

definition m_self :: pyfunc where
  "m_self = \<lparr>fn_name = ''m'', fn_doc = None,
     fn_params = [(''self'', \<lparr>kind = POSITIONAL_OR_KEYWORD, default = None, annotation = Empty\<rparr>),
                  (''cls'', \<lparr>kind = POSITIONAL_OR_KEYWORD, default = Some (PInt 0),
                            annotation = PlainClass ''int''\<rparr>)],
     fn_is_coroutine = False, fn_call = int_result\<rparr>"

definition n_self :: pyfunc where
  "n_self = \<lparr>fn_name = ''n'', fn_doc = None,
     fn_params = [(''self'', \<lparr>kind = POSITIONAL_OR_KEYWORD, default = Some PNone,
                             annotation = OtherType ''Optional[int]''\<rparr>)],
     fn_is_coroutine = False, fn_call = int_result\<rparr>"

text \<open>\<open>def e(self: Level, x: int = 1)\<close>, with the enumeration \<open>Level\<close> above.\<close>

definition e_self :: pyfunc where
  "e_self = \<lparr>fn_name = ''e'', fn_doc = None,
     fn_params = [(''self'', \<lparr>kind = POSITIONAL_OR_KEYWORD, default = None,
                             annotation = EnumClass ''Level'' [''LOW'', ''HIGH'']\<rparr>),
                  (''x'', \<lparr>kind = POSITIONAL_OR_KEYWORD, default = Some (PInt 1),
                          annotation = PlainClass ''int''\<rparr>)],
     fn_is_coroutine = False, fn_call = int_result\<rparr>"

text \<open>\<open>def u(*, a: Annotated[int, "x", "y"] = 1, b)\<close>.\<close>

definition u_annotated :: pyfunc where
  "u_annotated = \<lparr>fn_name = ''u'', fn_doc = None,
     fn_params = [(''a'', \<lparr>kind = KEYWORD_ONLY, default = Some (PInt 1),
                          annotation = Annotated (PlainClass ''int'') [PStr ''x'', PStr ''y'']\<rparr>),
                  (''b'', \<lparr>kind = KEYWORD_ONLY, default = None, annotation = Empty\<rparr>)],
     fn_is_coroutine = False, fn_call = int_result\<rparr>"

text \<open>Whether building the entry of a parameter raises.\<close>

definition entry_raises :: "parameter \<Rightarrow> bool" where
  "entry_raises p = (case make_field p of Inl e \<Rightarrow> True | Inr fld \<Rightarrow> False)"

section \<open>Properties of the analysis loop\<close>

lemmas wrap_defs = gpt_callable_func_def convert_to_gpt_func_def convert_params_to_schema_def
  add_required_def make_field_def field_default_def model_json_schema_def Let_def
lemmas read_defs = required_names_def property_names_def schema_required_def
  schema_properties_def schema_parameters_def

lemma add_required_None:
  "add_required n hdf None ex = (if hdf then Inr None else Inl TypeError_None_not_iterable)"
  by (simp add: add_required_def)

lemma analyze_ConsE:
  assumes "analyze idx ((m, q) # ps) ex req props = Inr res"
  obtains (skip) "skipped idx m q" "analyze (Suc idx) ps ex req props = Inr res"
  | (step) req1 fld where "\<not> skipped idx m q"
      "add_required m (default q \<noteq> None) req ex = Inr req1"
      "make_field q = Inr fld"
      "analyze (Suc idx) ps ex req1 (AList.update m fld props) = Inr res"
  using assms by (auto simp: skipped_def split: if_splits sum.splits)

lemma analyze_keys:
  "analyze idx ps ex req props = Inr (req', props') \<Longrightarrow>
   set (map fst props') = set (map fst props) \<union> set (map fst (analyzed idx ps))"
proof (induction ps arbitrary: idx req props)
  case Nil
  then show ?case by simp
next
  case (Cons a ps)
  obtain m q where a: "a = (m, q)" by (cases a)
  from Cons.prems[unfolded a] show ?case
  proof (cases rule: analyze_ConsE)
    case skip
    from Cons.IH[OF skip(2)] skip(1) show ?thesis by (simp add: a)
  next
    case (step req1 fld)
    from Cons.IH[OF step(4)] step(1) show ?thesis by (auto simp: a dom_update)
  qed
qed

lemma analyze_None:
  "analyze idx ps ex None props = Inr (req', props') \<Longrightarrow>
   req' = None \<and> (\<forall>(n, p) \<in> set (analyzed idx ps). default p \<noteq> None)"
proof (induction ps arbitrary: idx props)
  case Nil
  then show ?case by simp
next
  case (Cons a ps)
  obtain m q where a: "a = (m, q)" by (cases a)
  from Cons.prems[unfolded a] show ?case
  proof (cases rule: analyze_ConsE)
    case skip
    from Cons.IH[OF skip(2)] skip(1) show ?thesis by (simp add: a)
  next
    case (step req1 fld)
    from step(2) have "req1 = None" "default q \<noteq> None"
      by (auto simp: add_required_None split: if_splits)
    with Cons.IH[OF step(4)[unfolded this(1)]] step(1) show ?thesis by (simp add: a)
  qed
qed

lemma analyze_TypeError:
  "j < length ps \<Longrightarrow> \<not> skipped (idx + j) (fst (ps ! j)) (snd (ps ! j)) \<Longrightarrow>
   default (snd (ps ! j)) = None \<Longrightarrow>
   list_all (\<lambda>np. \<not> entry_raises (snd np)) (take j ps) \<Longrightarrow>
   analyze idx ps ex None props = Inl TypeError_None_not_iterable"
proof (induction ps arbitrary: idx j props)
  case Nil
  then show ?case by simp
next
  case (Cons a ps)
  obtain m q where a: "a = (m, q)" by (cases a)
  show ?case
  proof (cases j)
    case 0
    with Cons.prems show ?thesis
      by (auto simp: a skipped_def add_required_None)
  next
    case (Suc k)
    with Cons.prems have k: "k < length ps"
      "\<not> skipped (Suc idx + k) (fst (ps ! k)) (snd (ps ! k))"
      "default (snd (ps ! k)) = None"
      "list_all (\<lambda>np. \<not> entry_raises (snd np)) (take k ps)"
      and q: "\<not> entry_raises q"
      by (simp_all add: a)
    from q obtain fld where fld: "make_field q = Inr fld"
      by (auto simp: entry_raises_def split: sum.splits)
    have ih: "analyze (Suc idx) ps ex None props' = Inl TypeError_None_not_iterable" for props'
      using Cons.IH[OF k] .
    show ?thesis
    proof (cases "skipped idx m q")
      case True
      then have "analyze idx ((m, q) # ps) ex None props = analyze (Suc idx) ps ex None props"
        by (auto simp: skipped_def)
      with ih show ?thesis by (simp add: a)
    next
      case False
      then have "analyze idx ((m, q) # ps) ex None props =
          (if default q \<noteq> None
           then analyze (Suc idx) ps ex None (AList.update m fld props)
           else Inl TypeError_None_not_iterable)"
        by (auto simp: skipped_def add_required_None fld)
      with ih show ?thesis by (simp add: a)
    qed
  qed
qed

lemma add_required_Some:
  "add_required n hdf (Some r) ex = Inr q \<Longrightarrow>
   \<exists>r'. q = Some r' \<and> r \<subseteq> r' \<and> r' \<subseteq> insert n r \<and> (r' - r) \<inter> or_empty ex = {}"
  by (auto simp: add_required_def split: if_splits option.splits)

lemma analyze_Some:
  "analyze idx ps ex (Some r) props = Inr (req', props') \<Longrightarrow>
   \<exists>r'. req' = Some r' \<and> r \<subseteq> r' \<and> r' \<subseteq> r \<union> set (map fst (analyzed idx ps))
        \<and> (r' - r) \<inter> or_empty ex = {}"
proof (induction ps arbitrary: idx props r)
  case Nil
  then show ?case by auto
next
  case (Cons a ps)
  obtain m q where a: "a = (m, q)" by (cases a)
  from Cons.prems[unfolded a] show ?case
  proof (cases rule: analyze_ConsE)
    case skip
    from Cons.IH[OF skip(2)] skip(1) show ?thesis by (simp add: a)
  next
    case (step req1 fld)
    from add_required_Some[OF step(2)] obtain r1 where
      r1: "req1 = Some r1" "r \<subseteq> r1" "r1 \<subseteq> insert m r" "(r1 - r) \<inter> or_empty ex = {}" by blast
    from Cons.IH[OF step(4)[unfolded r1(1)]] obtain r' where
      r': "req' = Some r'" "r1 \<subseteq> r'" "r' \<subseteq> r1 \<union> set (map fst (analyzed (Suc idx) ps))"
          "(r' - r1) \<inter> or_empty ex = {}" by blast
    from r1 r' step(1) show ?thesis
      by (simp add: a) blast
  qed
qed

lemma analyze_other:
  "analyze idx ps ex req props = Inr (req', props') \<Longrightarrow> n \<notin> set (map fst ps) \<Longrightarrow>
   map_of props' n = map_of props n"
proof (induction ps arbitrary: idx props req)
  case Nil
  then show ?case by simp
next
  case (Cons a ps)
  obtain m q where a: "a = (m, q)" by (cases a)
  from Cons.prems(2) have n: "n \<notin> set (map fst ps)" "n \<noteq> m" by (auto simp: a)
  from Cons.prems(1)[unfolded a] show ?case
  proof (cases rule: analyze_ConsE)
    case skip
    from Cons.IH[OF skip(2) n(1)] show ?thesis .
  next
    case (step req1 fld)
    from Cons.IH[OF step(4) n(1)] n(2) show ?thesis by (simp add: update_conv')
  qed
qed

lemma analyze_lookup:
  "analyze idx ps ex req props = Inr (req', props') \<Longrightarrow> distinct (map fst ps) \<Longrightarrow>
   (n, p) \<in> set (analyzed idx ps) \<Longrightarrow>
   \<exists>fld. make_field p = Inr fld \<and> map_of props' n = Some fld"
proof (induction ps arbitrary: idx props req)
  case Nil
  then show ?case by simp
next
  case (Cons a ps)
  obtain m q where a: "a = (m, q)" by (cases a)
  from Cons.prems(2) have d: "distinct (map fst ps)" and m: "m \<notin> set (map fst ps)"
    by (simp_all add: a)
  from Cons.prems(1)[unfolded a] show ?case
  proof (cases rule: analyze_ConsE)
    case skip
    with Cons.prems(3) have "(n, p) \<in> set (analyzed (Suc idx) ps)" by (simp add: a)
    from Cons.IH[OF skip(2) d this] show ?thesis .
  next
    case (step req1 fld)
    show ?thesis
    proof (cases "(n, p) = (m, q)")
      case True
      from analyze_other[OF step(4) m] True step(3) show ?thesis by (simp add: update_conv')
    next
      case False
      with Cons.prems(3) step(1) have "(n, p) \<in> set (analyzed (Suc idx) ps)"
        by (auto simp: a)
      from Cons.IH[OF step(4) d this] show ?thesis .
    qed
  qed
qed

lemma analyzed_subset: "x \<in> set (analyzed idx ps) \<Longrightarrow> x \<in> set ps"
proof (induction ps arbitrary: idx)
  case Nil
  then show ?case by simp
next
  case (Cons a ps)
  obtain m q where a: "a = (m, q)" by (cases a)
  from Cons.prems Cons.IH show ?case
    unfolding a by (auto split: if_splits)
qed

lemma analyzed_nth:
  "i < length ps \<Longrightarrow> \<not> skipped (idx + i) (fst (ps ! i)) (snd (ps ! i)) \<Longrightarrow>
   ps ! i \<in> set (analyzed idx ps)"
proof (induction ps arbitrary: idx i)
  case Nil
  then show ?case by simp
next
  case (Cons a ps)
  obtain m q where a: "a = (m, q)" by (cases a)
  show ?case
  proof (cases i)
    case 0
    with Cons.prems show ?thesis by (simp add: a)
  next
    case (Suc j)
    with Cons.prems have "j < length ps"
      "\<not> skipped (Suc idx + j) (fst (ps ! j)) (snd (ps ! j))" by simp_all
    from Cons.IH[OF this] Suc show ?thesis by (simp add: a)
  qed
qed

lemma analyzed_not_variadic:
  "(n, p) \<in> set (analyzed idx ps) \<Longrightarrow> kind p \<notin> {VAR_POSITIONAL, VAR_KEYWORD}"
proof (induction ps arbitrary: idx)
  case Nil
  then show ?case by simp
next
  case (Cons a ps)
  obtain m q where a: "a = (m, q)" by (cases a)
  from Cons.prems Cons.IH show ?case
    unfolding a by (auto simp: skipped_def split: if_splits)
qed

lemma analyzed_Suc:
  "(n, p) \<in> set ps \<Longrightarrow> kind p \<notin> {VAR_POSITIONAL, VAR_KEYWORD} \<Longrightarrow>
   (n, p) \<in> set (analyzed (Suc idx) ps)"
proof (induction ps arbitrary: idx)
  case Nil
  then show ?case by simp
next
  case (Cons a ps)
  obtain m q where a: "a = (m, q)" by (cases a)
  from Cons.prems Cons.IH show ?case
    unfolding a by (auto simp: skipped_def)
qed

lemma convert_Inr:
  "convert_params_to_schema ps i e = Inr s \<Longrightarrow>
   \<exists>req props. analyze 0 ps e i [] = Inr (req, props)
     \<and> \<not> (truthy i \<and> truthy e \<and> or_empty i \<inter> or_empty e \<noteq> {})
     \<and> or_empty i \<subseteq> set (map fst ps)
     \<and> s = AList.delete ''title''
                      (AList.update ''required'' (required_value req)
                         (model_json_schema props))"
  by (auto simp: convert_params_to_schema_def split: if_splits sum.splits)

lemma schema_lookups:
  "s = AList.delete ''title'' (AList.update ''required'' v (model_json_schema props)) \<Longrightarrow>
   map_of s ''properties'' = Some (SDict (map (\<lambda>(n, f). (n, SField f)) props))
   \<and> map_of s ''required'' = Some v \<and> map_of s ''title'' = None"
  by (simp add: model_json_schema_def Let_def delete_conv' update_conv')

lemma wrap_Inr:
  "gpt_callable_func d i e f = Inr w \<Longrightarrow>
   \<exists>s nm doc. convert_params_to_schema (fn_params f) i e = Inr s
      \<and> gpt_func w = SDict [(''name'', SStr nm), (''description'', SStr doc), (''parameters'', SDict s)]
      \<and> func w = f
      \<and> w = (if fn_is_coroutine f then AsyncWrapper f (gpt_func w) else Wrapper f (gpt_func w))"
  by (auto simp: gpt_callable_func_def convert_to_gpt_func_def Let_def split: sum.splits)

lemma wrap_analysis:
  assumes "gpt_callable_func d i e f = Inr w"
  obtains req props where
    "analyze 0 (fn_params f) e i [] = Inr (req, props)"
    "\<not> (truthy i \<and> truthy e \<and> or_empty i \<inter> or_empty e \<noteq> {})"
    "or_empty i \<subseteq> set (map fst (fn_params f))"
    "schema_properties w = Some (SDict (map (\<lambda>(n, f). (n, SField f)) props))"
    "schema_required w = Some (required_value req)"
    "get (schema_parameters w) ''title'' = None"
proof -
  from wrap_Inr[OF assms] obtain s nm doc where
    c: "convert_params_to_schema (fn_params f) i e = Inr s" and
    g: "gpt_func w = SDict [(''name'', SStr nm), (''description'', SStr doc), (''parameters'', SDict s)]"
    by blast
  from convert_Inr[OF c] obtain req props where
    a: "analyze 0 (fn_params f) e i [] = Inr (req, props)"
      "\<not> (truthy i \<and> truthy e \<and> or_empty i \<inter> or_empty e \<noteq> {})"
      "or_empty i \<subseteq> set (map fst (fn_params f))" and
    s: "s = AList.delete ''title'' (AList.update ''required'' (required_value req)
                         (model_json_schema props))"
    by blast
  from schema_lookups[OF s] g have
    "schema_properties w = Some (SDict (map (\<lambda>(n, f). (n, SField f)) props))"
    "schema_required w = Some (required_value req)"
    "get (schema_parameters w) ''title'' = None"
    by (simp_all add: schema_properties_def schema_required_def schema_parameters_def)
  with a that show ?thesis by blast
qed

lemma map_of_fields:
  "map_of (map (\<lambda>(n, f). (n, SField f)) props) n = map_option SField (map_of props n)"
  by (induction props) auto

lemma keys_fields:
  "set (map fst (map (\<lambda>(n, f). (n, SField f)) props)) = set (map fst props)"
  by (induction props) auto



lemma analyzed_mem:
  "(n, p) \<in> set ps \<Longrightarrow> kind p \<notin> {VAR_POSITIONAL, VAR_KEYWORD} \<Longrightarrow>
   \<not> (n \<in> {''self'', ''cls''} \<and> type_is_type (annotation p)) \<Longrightarrow>
   (n, p) \<in> set (analyzed idx ps)"
proof (induction ps arbitrary: idx)
  case Nil
  then show ?case by simp
next
  case (Cons a ps)
  obtain m q where a: "a = (m, q)" by (cases a)
  from Cons.prems Cons.IH show ?case
    unfolding a by (auto simp: skipped_def)
qed

lemma wrap_property_names:
  assumes "gpt_callable_func d i e f = Inr w"
  shows "property_names w = set (map fst (analyzed 0 (fn_params f)))"
proof -
  from assms obtain req props where
    a: "analyze 0 (fn_params f) e i [] = Inr (req, props)" and
    p: "schema_properties w = Some (SDict (map (\<lambda>(n, f). (n, SField f)) props))"
    by (rule wrap_analysis)
  from analyze_keys[OF a] have "set (map fst props) = set (map fst (analyzed 0 (fn_params f)))"
    by simp
  with p show ?thesis
    by (simp add: property_names_def keys_fields del: set_map map_map)
qed

lemma wrap_no_title:
  "gpt_callable_func d i e f = Inr w \<Longrightarrow> get (schema_parameters w) ''title'' = None"
  by (erule wrap_analysis)

lemma required_subset_properties:
  assumes "gpt_callable_func d i e f = Inr w"
    and "or_empty i \<subseteq> set (map fst (analyzed 0 (fn_params f)))"
  shows "required_names w \<subseteq> property_names w"
proof -
  from assms(1) obtain req props where
    a: "analyze 0 (fn_params f) e i [] = Inr (req, props)" and
    r: "schema_required w = Some (required_value req)"
    by (rule wrap_analysis)
  have "members (Some (required_value req)) \<subseteq> set (map fst (analyzed 0 (fn_params f)))"
  proof (cases i)
    case None
    with a have "req = None" by (simp add: analyze_None)
    then show ?thesis by simp
  next
    case (Some r0)
    from analyze_Some[OF a[unfolded Some]] obtain r' where
      "req = Some r'" "r' \<subseteq> r0 \<union> set (map fst (analyzed 0 (fn_params f)))" by blast
    with assms(2) Some show ?thesis by auto
  qed
  with r wrap_property_names[OF assms(1)] show ?thesis
    by (simp add: required_names_def)
qed

section \<open>Exclusion\<close>

text \<open>
  C1, as stated, fails: for \<open>def g(a: int, b: int = 1)\<close> wrapped with
  \<open>include={"a"}\<close> and \<open>exclude={"b"}\<close> the wrap succeeds and \<open>b\<close> is still a
  key of the properties map. The loop consults \<open>exclude\<close> only when it decides whether
  to add a name to the required set.
\<close>

theorem excluded_parameter_stays_in_properties:
  "map_sum id (\<lambda>w. ''b'' \<in> property_names w)
     (gpt_callable_func None (Some {''a''}) (Some {''b''}) g_a_b) = Inr True"
  by (simp add: wrap_defs read_defs g_a_b_def)

text \<open>
  C1, amended: whenever a wrap with an exclude set succeeds, no excluded name is a
  member of the schema's required field; the keys of the properties map are the names
  of the parameters the loop does not skip, whatever \<open>exclude\<close> is.
\<close>

theorem excluded_parameter_not_required:
  assumes "gpt_callable_func d i (Some ex) f = Inr w" and "b \<in> ex"
  shows "b \<notin> required_names w \<and> property_names w = set (map fst (analyzed 0 (fn_params f)))"
proof -
  from assms(1) obtain req props where
    a: "analyze 0 (fn_params f) (Some ex) i [] = Inr (req, props)" and
    o: "\<not> (truthy i \<and> truthy (Some ex) \<and> or_empty i \<inter> or_empty (Some ex) \<noteq> {})" and
    r: "schema_required w = Some (required_value req)"
    by (rule wrap_analysis)
  have "b \<notin> members (Some (required_value req))"
  proof (cases i)
    case None
    with a have "req = None" by (simp add: analyze_None)
    then show ?thesis by simp
  next
    case (Some r0)
    from analyze_Some[OF a[unfolded Some]] obtain r' where
      r': "req = Some r'" "r0 \<subseteq> r'" "(r' - r0) \<inter> or_empty (Some ex) = {}" by blast
    from o Some assms(2) have "b \<notin> r0" by auto
    with r' assms(2) show ?thesis by auto
  qed
  with r wrap_property_names[OF assms(1)] show ?thesis
    by (simp add: required_names_def)
qed

theorem excluded_parameter_not_required_witness:
  "\<exists>w. gpt_callable_func None (Some {''a''}) (Some {''b''}) g_a_b = Inr w
       \<and> ''b'' \<notin> required_names w \<and> property_names w = {''a'', ''b''}"
proof -
  obtain w where w: "gpt_callable_func None (Some {''a''}) (Some {''b''}) g_a_b = Inr w"
    by (simp add: wrap_defs g_a_b_def)
  have "''b'' \<in> {''b''}" by simp
  from excluded_parameter_not_required[OF w this] have "''b'' \<notin> required_names w"
    "property_names w = set (map fst (analyzed 0 (fn_params g_a_b)))" by simp_all
  moreover have "set (map fst (analyzed 0 (fn_params g_a_b))) = {''a'', ''b''}"
    by (simp add: g_a_b_def skipped_def)
  ultimately show ?thesis using w by simp
qed

section \<open>Wrapping with neither include nor exclude\<close>

text \<open>
  C2: for \<open>def f(a, b=1)\<close> wrapped with no include and no exclude the claim expects
  a schema with required \<open>{"a"}\<close> and properties \<open>a\<close>, \<open>b\<close>. The source raises:
  \<open>required_params\<close> is the \<open>include\<close> argument, \<open>None\<close>, and the membership test
  for the parameter \<open>a\<close> fails on it.
\<close>

theorem required_a_b_raises_TypeError:
  "gpt_callable_func None None None f_a_b = Inl TypeError_None_not_iterable"
  by (simp add: wrap_defs f_a_b_def)

text \<open>
  C3, as stated, fails: for \<open>def u(*, a: Annotated[int, "x", "y"] = 1, b)\<close> wrapped with
  \<open>include\<close> and \<open>exclude\<close> both \<open>None\<close>, the parameter \<open>b\<close> is not skipped and has no
  default, and the error raised is not the \<open>TypeError\<close>: the loop reaches \<open>a\<close> first,
  whose alias has two metadata values, and the unpacking of line 46 raises \<open>ValueError\<close>.
\<close>

theorem unpacking_preempts_TypeError:
  "1 < length (fn_params u_annotated)
   \<and> \<not> skipped 1 (fst (fn_params u_annotated ! 1)) (snd (fn_params u_annotated ! 1))
   \<and> default (snd (fn_params u_annotated ! 1)) = None
   \<and> gpt_callable_func None None None u_annotated = Inl ValueError_unpack
   \<and> gpt_callable_func None None None u_annotated \<noteq> Inl TypeError_None_not_iterable"
  by (simp add: wrap_defs u_annotated_def skipped_def)

text \<open>
  C3, amended: a function with a parameter that the loop does not skip and that has no
  default, wrapped with \<open>include\<close> and \<open>exclude\<close> both \<open>None\<close>, never gets a schema: the
  application raises. The error is the \<open>TypeError\<close> of the membership test against
  \<open>None\<close> whenever building the entry of no parameter declared before that one raises.
\<close>

theorem include_None_raises_TypeError:
  assumes "j < length (fn_params f)"
    and "\<not> skipped j (fst (fn_params f ! j)) (snd (fn_params f ! j))"
    and "default (snd (fn_params f ! j)) = None"
  shows "(\<exists>err. gpt_callable_func d None None f = Inl err)
       \<and> (list_all (\<lambda>np. \<not> entry_raises (snd np)) (take j (fn_params f)) \<longrightarrow>
            gpt_callable_func d None None f = Inl TypeError_None_not_iterable)"
proof -
  have unfold: "gpt_callable_func d None None f =
      (case analyze 0 (fn_params f) None None [] of
         Inl err \<Rightarrow> Inl err
       | Inr (req, props) \<Rightarrow>
           Inr ((if fn_is_coroutine f then AsyncWrapper f else Wrapper f)
                  (SDict [(''name'', SStr (fn_name f)),
                          (''description'', SStr (case d of
                               Some s \<Rightarrow> if s \<noteq> [] then s else
                                 (case fn_doc f of Some s \<Rightarrow> if s \<noteq> [] then s else fn_name f
                                                 | None \<Rightarrow> fn_name f)
                             | None \<Rightarrow>
                                 (case fn_doc f of Some s \<Rightarrow> if s \<noteq> [] then s else fn_name f
                                                 | None \<Rightarrow> fn_name f))),
                          (''parameters'', SDict (AList.delete ''title''
                              (AList.update ''required'' (required_value req)
                                 (model_json_schema props))))])))"
    by (simp add: gpt_callable_func_def convert_to_gpt_func_def convert_params_to_schema_def
        Let_def split: sum.splits)
  from analyzed_nth[of j "fn_params f" 0] assms(1,2)
  have mem: "(fst (fn_params f ! j), snd (fn_params f ! j)) \<in> set (analyzed 0 (fn_params f))"
    by simp
  have "\<exists>err. analyze 0 (fn_params f) None None [] = Inl err"
  proof (cases "analyze 0 (fn_params f) None None []")
    case (Inl err)
    then show ?thesis by simp
  next
    case (Inr res)
    obtain req props where "res = (req, props)" by (cases res)
    with Inr analyze_None[of 0 "fn_params f" None "[]" req props] mem assms(3)
    show ?thesis by auto
  qed
  then have 1: "\<exists>err. gpt_callable_func d None None f = Inl err"
    by (auto simp: unfold)
  have 2: "list_all (\<lambda>np. \<not> entry_raises (snd np)) (take j (fn_params f)) \<longrightarrow>
            gpt_callable_func d None None f = Inl TypeError_None_not_iterable"
  proof
    assume "list_all (\<lambda>np. \<not> entry_raises (snd np)) (take j (fn_params f))"
    from analyze_TypeError[of j "fn_params f" 0, OF assms(1) _ assms(3) this] assms(2)
    have "analyze 0 (fn_params f) None None [] = Inl TypeError_None_not_iterable" by simp
    then show "gpt_callable_func d None None f = Inl TypeError_None_not_iterable"
      by (simp add: unfold)
  qed
  from 1 2 show ?thesis by blast
qed

theorem include_None_raises_TypeError_witness:
  "gpt_callable_func (Some ''adds'') None None f_a_b = Inl TypeError_None_not_iterable
   \<and> (\<exists>err. gpt_callable_func None None None u_annotated = Inl err)"
proof -
  have a: "0 < length (fn_params f_a_b)"
    "\<not> skipped 0 (fst (fn_params f_a_b ! 0)) (snd (fn_params f_a_b ! 0))"
    "default (snd (fn_params f_a_b ! 0)) = None"
    by (simp_all add: f_a_b_def skipped_def)
  have "list_all (\<lambda>np. \<not> entry_raises (snd np)) (take 0 (fn_params f_a_b))" by simp
  with include_None_raises_TypeError[OF a, of "Some ''adds''"]
  have 1: "gpt_callable_func (Some ''adds'') None None f_a_b = Inl TypeError_None_not_iterable"
    by blast
  have u: "1 < length (fn_params u_annotated)"
    "\<not> skipped 1 (fst (fn_params u_annotated ! 1)) (snd (fn_params u_annotated ! 1))"
    "default (snd (fn_params u_annotated ! 1)) = None"
    by (simp_all add: u_annotated_def skipped_def)
  from include_None_raises_TypeError[OF u, of None]
  have 2: "\<exists>err. gpt_callable_func None None None u_annotated = Inl err" by blast
  from 1 2 show ?thesis by blast
qed

section \<open>Required names and properties\<close>

text \<open>
  C4: for \<open>def h(x: int = 1, **kwargs)\<close> wrapped with \<open>include={"kwargs"}\<close> the wrap
  succeeds, the required field is \<open>{"kwargs"}\<close> and the properties map has the single
  key \<open>x\<close>: the name passes the check against the signature, and the loop skips the
  variadic parameter.
\<close>

theorem required_names_skipped_parameter:
  "map_sum id (\<lambda>w. (required_names w, property_names w))
     (gpt_callable_func None (Some {''kwargs''}) None h_kwargs) = Inr ({''kwargs''}, {''x''})"
  by (simp add: wrap_defs read_defs h_kwargs_def)

text \<open>
  C5: for \<open>def g(a: int, b: int = 1)\<close> wrapped with \<open>include={"a"}\<close> the required
  field of the schema is the Python set \<open>{"a"}\<close> (the \<open>include\<close> object itself), not a
  list, and the attached schema is not JSON-serializable.
\<close>

theorem required_is_a_set_not_serializable:
  "map_sum id (\<lambda>w. (schema_required w, json_serializable (gpt_func w)))
     (gpt_callable_func None (Some {''a''}) None g_a_b) = Inr (Some (SSet {''a''}), False)"
  by (simp add: wrap_defs read_defs g_a_b_def)

section \<open>Calling the wrapper\<close>




section \<open>Errors at wrap time\<close>

text \<open>
  C7: when \<open>include\<close> and \<open>exclude\<close> share a member, applying the decorator raises the
  \<open>ValueError\<close> of the first check, for every function and description: nothing of the
  signature is looked at.
\<close>

theorem overlap_raises_ValueError:
  assumes "i \<inter> e \<noteq> {}"
  shows "gpt_callable_func d (Some i) (Some e) f = Inl ValueError_included_and_excluded"
proof -
  from assms have "i \<noteq> {}" "e \<noteq> {}" by auto
  with assms have
    "convert_params_to_schema (fn_params f) (Some i) (Some e) = Inl ValueError_included_and_excluded"
    by (simp add: convert_params_to_schema_def)
  then show ?thesis
    by (simp add: gpt_callable_func_def convert_to_gpt_func_def Let_def)
qed

theorem overlap_raises_ValueError_witness:
  "gpt_callable_func None (Some {''a'', ''b''}) (Some {''b''}) f_a_b
     = Inl ValueError_included_and_excluded"
proof -
  have "{''a'', ''b''} \<inter> {''b''} \<noteq> ({} :: string set)" by simp
  from overlap_raises_ValueError[OF this] show ?thesis .
qed

text \<open>
  C8, as stated, fails: with \<open>include={"zz"}\<close> and \<open>exclude={"zz"}\<close> on
  \<open>def g(a: int, b: int = 1)\<close> the name \<open>zz\<close> is not a parameter, and the error raised
  is the \<open>ValueError\<close> of the overlap check, which runs first.
\<close>

theorem overlap_preempts_not_found:
  "''zz'' \<notin> set (map fst (fn_params g_a_b))
   \<and> gpt_callable_func None (Some {''zz''}) (Some {''zz''}) g_a_b
       = Inl ValueError_included_and_excluded
   \<and> gpt_callable_func None (Some {''zz''}) (Some {''zz''}) g_a_b
       \<noteq> Inl AttributeError_not_found"
  by (simp add: wrap_defs g_a_b_def)

text \<open>
  C8, amended: when \<open>include\<close> has a name that is not a parameter of the function and
  shares no member with \<open>exclude\<close>, applying the decorator raises the not-found
  \<open>AttributeError\<close>; the application returns no wrapper, so nothing is left to a call.
\<close>

theorem include_unknown_raises_not_found:
  assumes "n \<in> i" and "n \<notin> set (map fst (fn_params f))" and "i \<inter> or_empty e = {}"
  shows "gpt_callable_func d (Some i) e f = Inl AttributeError_not_found"
proof -
  from assms(1,2) have "\<not> i \<subseteq> set (map fst (fn_params f))" by blast
  with assms(3) have
    "convert_params_to_schema (fn_params f) (Some i) e = Inl AttributeError_not_found"
    by (simp add: convert_params_to_schema_def)
  then show ?thesis
    by (simp add: gpt_callable_func_def convert_to_gpt_func_def Let_def)
qed

theorem include_unknown_raises_not_found_witness:
  "gpt_callable_func None (Some {''zz''}) (Some {''b''}) g_a_b = Inl AttributeError_not_found"
proof -
  have "''zz'' \<in> {''zz''}" "''zz'' \<notin> set (map fst (fn_params g_a_b))"
    "{''zz''} \<inter> or_empty (Some {''b''}) = {}"
    by (simp_all add: g_a_b_def)
  from include_unknown_raises_not_found[OF this] show ?thesis .
qed

section \<open>Emitted types\<close>

text \<open>
  C9: in the schema of a successful wrap, a parameter annotated with an enumeration
  class (and not variadic, so that it has an entry) has as emitted type the literal of
  the enumeration's member names, in their order.
\<close>

theorem enum_emitted_as_literal:
  assumes "gpt_callable_func d i e f = Inr w"
    and "distinct (map fst (fn_params f))"
    and "(n, p) \<in> set (fn_params f)"
    and "kind p \<notin> {VAR_POSITIONAL, VAR_KEYWORD}"
    and "annotation p = EnumClass c ms"
  shows "emitted_type w n = Some (LiteralOf ms)"
proof -
  from assms(1) obtain req props where
    a: "analyze 0 (fn_params f) e i [] = Inr (req, props)" and
    pr: "schema_properties w = Some (SDict (map (\<lambda>(n, f). (n, SField f)) props))"
    by (rule wrap_analysis)
  from assms(5) have "\<not> (n \<in> {''self'', ''cls''} \<and> type_is_type (annotation p))" by simp
  from analyzed_mem[OF assms(3,4) this]
  have "(n, p) \<in> set (analyzed 0 (fn_params f))" .
  from analyze_lookup[OF a assms(2) this] obtain fld where
    "make_field p = Inr fld" "map_of props n = Some fld" by blast
  with pr assms(5) show ?thesis by (auto simp: map_of_fields make_field_def)
qed

theorem enum_emitted_as_literal_witness:
  "\<exists>w. gpt_callable_func None (Some {''level''}) None k_level = Inr w
       \<and> emitted_type w ''level'' = Some (LiteralOf [''LOW'', ''HIGH''])"
proof -
  obtain w where w: "gpt_callable_func None (Some {''level''}) None k_level = Inr w"
    by (simp add: wrap_defs k_level_def)
  have "distinct (map fst (fn_params k_level))"
    "(''level'', \<lparr>kind = POSITIONAL_OR_KEYWORD, default = None,
                  annotation = EnumClass ''Level'' [''LOW'', ''HIGH'']\<rparr>) \<in> set (fn_params k_level)"
    "kind \<lparr>kind = POSITIONAL_OR_KEYWORD, default = None,
            annotation = EnumClass ''Level'' [''LOW'', ''HIGH'']\<rparr> \<notin> {VAR_POSITIONAL, VAR_KEYWORD}"
    "annotation \<lparr>kind = POSITIONAL_OR_KEYWORD, default = None,
            annotation = EnumClass ''Level'' [''LOW'', ''HIGH'']\<rparr> = EnumClass ''Level'' [''LOW'', ''HIGH'']"
    by (simp_all add: k_level_def)
  from enum_emitted_as_literal[OF w this] w show ?thesis by blast
qed

text \<open>
  C10, as stated, fails: in \<open>def e(self: Level, x: int = 1)\<close> the first parameter is
  named \<open>self\<close> and its annotation is a class, the enumeration \<open>Level\<close>; wrapped with
  \<open>include={"self"}\<close> it keeps its entry in the properties. The test of line 27 is
  \<open>type(annotation) is type\<close>, and the type of an enumeration class is \<open>EnumMeta\<close>.
\<close>

theorem enum_annotated_receiver_kept:
  "fst (hd (fn_params e_self)) = ''self''
   \<and> is_enum (annotation (snd (hd (fn_params e_self))))
   \<and> map_sum id (\<lambda>w. ''self'' \<in> property_names w)
         (gpt_callable_func None (Some {''self''}) None e_self) = Inr True"
  by (simp add: wrap_defs read_defs e_self_def)

text \<open>
  C10, amended: in the schema of a successful wrap, a first parameter named \<open>self\<close> or
  \<open>cls\<close> whose annotation passes \<open>type(annotation) is type\<close> (a class whose metaclass
  is \<open>type\<close>, or no annotation) has no entry in the properties; a first parameter named
  \<open>self\<close> whose annotation does not pass it is kept unless it is variadic; and every
  parameter after the first that is not variadic is kept, whatever its name and
  annotation.
\<close>

theorem receiver_skipped_only_first:
  assumes "gpt_callable_func d i e f = Inr w"
    and "distinct (map fst (fn_params f))"
    and "fn_params f = (n, p) # rest"
  shows "(n \<in> {''self'', ''cls''} \<and> type_is_type (annotation p) \<longrightarrow> n \<notin> property_names w)
       \<and> (n = ''self'' \<and> \<not> type_is_type (annotation p)
            \<and> kind p \<notin> {VAR_POSITIONAL, VAR_KEYWORD} \<longrightarrow> n \<in> property_names w)
       \<and> ((m, q) \<in> set rest \<and> kind q \<notin> {VAR_POSITIONAL, VAR_KEYWORD}
            \<longrightarrow> m \<in> property_names w)"
proof -
  have pn: "property_names w = set (map fst (analyzed 0 ((n, p) # rest)))"
    using wrap_property_names[OF assms(1)] assms(3) by simp
  from assms(2,3) have nr: "n \<notin> set (map fst rest)" by simp
  have sub: "set (map fst (analyzed (Suc 0) rest)) \<subseteq> set (map fst rest)"
    using analyzed_subset[of _ "Suc 0" rest] by auto
  have 1: "n \<in> {''self'', ''cls''} \<and> type_is_type (annotation p) \<longrightarrow> n \<notin> property_names w"
    using pn nr sub by (auto simp: skipped_def)
  have 2: "n = ''self'' \<and> \<not> type_is_type (annotation p)
            \<and> kind p \<notin> {VAR_POSITIONAL, VAR_KEYWORD} \<longrightarrow> n \<in> property_names w"
    using pn by (auto simp: skipped_def)
  have 3: "(m, q) \<in> set rest \<and> kind q \<notin> {VAR_POSITIONAL, VAR_KEYWORD}
            \<longrightarrow> m \<in> property_names w"
  proof
    assume h: "(m, q) \<in> set rest \<and> kind q \<notin> {VAR_POSITIONAL, VAR_KEYWORD}"
    then have "(m, q) \<in> set (analyzed (Suc 0) rest)" by (simp add: analyzed_Suc)
    then have "m \<in> set (map fst (analyzed (Suc 0) rest))" by force
    with pn show "m \<in> property_names w" by (cases "skipped 0 n p") simp_all
  qed
  from 1 2 3 show ?thesis by blast
qed

theorem receiver_skipped_only_first_witness:
  "(\<exists>w. gpt_callable_func None None None m_self = Inr w
        \<and> ''self'' \<notin> property_names w \<and> ''cls'' \<in> property_names w)
   \<and> (\<exists>w. gpt_callable_func None None None n_self = Inr w \<and> ''self'' \<in> property_names w)"
proof -
  let ?self = "\<lparr>kind = POSITIONAL_OR_KEYWORD, default = None, annotation = Empty\<rparr>"
  let ?cls = "\<lparr>kind = POSITIONAL_OR_KEYWORD, default = Some (PInt 0),
               annotation = PlainClass ''int''\<rparr>"
  let ?tree = "\<lparr>kind = POSITIONAL_OR_KEYWORD, default = Some PNone,
               annotation = OtherType ''Optional[int]''\<rparr>"
  obtain w where w: "gpt_callable_func None None None m_self = Inr w"
    by (simp add: wrap_defs m_self_def)
  have dm: "distinct (map fst (fn_params m_self))"
    and pm: "fn_params m_self = (''self'', ?self) # [(''cls'', ?cls)]"
    by (simp_all add: m_self_def)
  from receiver_skipped_only_first[OF w dm pm, of "''cls''" ?cls]
  have 1: "''self'' \<notin> property_names w" "''cls'' \<in> property_names w" by simp_all
  obtain v where v: "gpt_callable_func None None None n_self = Inr v"
    by (simp add: wrap_defs n_self_def)
  have dn: "distinct (map fst (fn_params n_self))"
    and pn: "fn_params n_self = (''self'', ?tree) # []"
    by (simp_all add: n_self_def)
  from receiver_skipped_only_first[OF v dn pn, of "''self''" ?tree]
  have 2: "''self'' \<in> property_names v" by simp
  from w 1 v 2 show ?thesis by blast
qed

end
